theory Spec2Isabelle
  imports Main "HOL-Library.Char_ord" "HOL-Library.List_Lexorder" "HOL-Library.Multiset"
begin

section \<open>The credential cache codec of AuthRepository.kt\<close>

text \<open>
  Kotlin strings are modelled as \<^typ>\<open>string\<close>; \<open>String.compareTo\<close> is the lexicographic
  order on the characters (\<open>Char_ord\<close>, \<open>List_Lexorder\<close>). A Kotlin \<open>Set<String>\<close> is
  modelled by the list of its elements in iteration order, which is arbitrary for the set
  read back from the preferences.
\<close>

datatype Credential = Credential (cred_id: string) (publicKey: string)

datatype throwable =
    ApiException "string option"
  | NullPointerException
  | IndexOutOfBoundsException
  | OtherException

text \<open>The string template \<open>"$index"\<close>: the decimal digits of a non-negative \<open>Int\<close>.\<close>

definition digit_char :: "nat \<Rightarrow> char" where
  "digit_char d = char_of (48 + d)"

function intToString :: "nat \<Rightarrow> string" where
  "intToString n =
     (if n < 10 then [digit_char n] else intToString (n div 10) @ [digit_char (n mod 10)])"
  by pat_completeness auto
termination
  by (relation "measure (\<lambda>n. n)") auto

declare intToString.simps [simp del]

text \<open>\<open>mapIndexed\<close> of the Kotlin standard library.\<close>

definition mapIndexed :: "(nat \<Rightarrow> 'a \<Rightarrow> 'b) \<Rightarrow> 'a list \<Rightarrow> 'b list" where
  "mapIndexed f xs = map (\<lambda>(index, x). f index x) (enumerate 0 xs)"

text \<open>\<open>toSet\<close> builds a \<open>LinkedHashSet\<close>: the first occurrence of each element, in order.\<close>

definition toSet :: "'a list \<Rightarrow> 'a list" where
  "toSet xs = fold (\<lambda>x s. if x \<in> set s then s else s @ [x]) xs []"

definition toStringSet :: "Credential list \<Rightarrow> string list" where
  "toStringSet cs =
     toSet (mapIndexed (\<lambda>index credential.
       intToString index @ '';'' @ cred_id credential @ '';'' @ publicKey credential) cs)"

text \<open>\<open>s.split(";")\<close>: the pieces between the delimiters, empty pieces included.\<close>

fun split_str :: "char \<Rightarrow> string \<Rightarrow> string list" where
  "split_str d [] = [[]]"
| "split_str d (c # cs) =
     (if c = d then [] # split_str d cs
      else (case split_str d cs of
              [] \<Rightarrow> [[c]]
            | w # ws \<Rightarrow> (c # w) # ws))"

text \<open>
  The destructuring declaration \<open>val (index, id, publicKey) = s.split(";")\<close> calls
  \<open>component1()\<close>, \<open>component2()\<close>, \<open>component3()\<close>, that is \<open>get(0)\<close>, \<open>get(1)\<close>, \<open>get(2)\<close>:
  a list of fewer than three pieces raises, further pieces are ignored.
\<close>

definition parseRecord :: "string \<Rightarrow> throwable + (string \<times> Credential)" where
  "parseRecord s =
     (case split_str CHR '';'' s of
        index # ident # pubKey # _ \<Rightarrow> Inr (index, Credential ident pubKey)
      | _ \<Rightarrow> Inl IndexOutOfBoundsException)"

text \<open>\<open>map\<close> with a body that may raise: the first exception ends the traversal.\<close>

fun mapRaising :: "('a \<Rightarrow> throwable + 'b) \<Rightarrow> 'a list \<Rightarrow> throwable + 'b list" where
  "mapRaising f [] = Inr []"
| "mapRaising f (x # xs) =
     (case f x of
        Inl e \<Rightarrow> Inl e
      | Inr y \<Rightarrow> (case mapRaising f xs of Inl e \<Rightarrow> Inl e | Inr ys \<Rightarrow> Inr (y # ys)))"

text \<open>
  \<open>sortedBy { (index, _) -> index }\<close> is a stable sort on the index, which is still the
  string produced by \<open>split\<close>.
\<close>

definition parseCredentials :: "string list \<Rightarrow> throwable + Credential list" where
  "parseCredentials records =
     (case mapRaising parseRecord records of
        Inl e \<Rightarrow> Inl e
      | Inr pairs \<Rightarrow> Inr (map snd (sort_key fst pairs)))"

section \<open>The sign-in state and the persistent store\<close>

datatype SignInState =
    SignedOut
  | SigningIn string
  | SignedIn string string
  | SignInError string

text \<open>
  The \<open>SharedPreferences\<close> file \<open>"auth"\<close> with its four keys \<open>"username"\<close>, \<open>"token"\<close>,
  \<open>"credentials"\<close> and \<open>"local_credential_id"\<close>; \<open>None\<close> is an absent key, which
  \<open>getString(key, null)\<close> reads as \<open>null\<close>.
\<close>

record prefs =
  pref_username :: "string option"
  pref_token :: "string option"
  pref_credentials :: "string list option"
  pref_local_credential_id :: "string option"

text \<open>
  \<open>isBlank\<close> and \<open>isNullOrBlank\<close> of the Kotlin standard library:
  \<open>length == 0 || indices.all { this[it].isWhitespace() }\<close> and \<open>this == null || this.isBlank()\<close>.
  Which characters \<open>Char.isWhitespace\<close> accepts is decided by the platform's Unicode tables
  (the ASCII white space, and also U+00A0, U+2000 to U+200A, U+3000 and others), and a
  character is not one byte of the string as it is written here. So the test "every
  character of the string is white space" is a parameter, \<open>allWhitespace\<close>, of the model.
\<close>

definition isBlank :: "(string \<Rightarrow> bool) \<Rightarrow> string \<Rightarrow> bool" where
  "isBlank allWhitespace s = (length s = 0 \<or> allWhitespace s)"

definition isNullOrBlank :: "(string \<Rightarrow> bool) \<Rightarrow> string option \<Rightarrow> bool" where
  "isNullOrBlank allWhitespace s =
     (case s of None \<Rightarrow> True | Some v \<Rightarrow> isBlank allWhitespace v)"

text \<open>
  The initial value of the \<open>LiveData\<close> built by \<open>getSignInState\<close> (its \<open>init\<close> block). In
  the second and third branch the value read is not \<open>null\<close>, by the test before it.
\<close>

definition getSignInState :: "(string \<Rightarrow> bool) \<Rightarrow> prefs \<Rightarrow> SignInState" where
  "getSignInState allWhitespace p =
     (if isNullOrBlank allWhitespace (pref_username p) then SignedOut
      else if isNullOrBlank allWhitespace (pref_token p) then SigningIn (the (pref_username p))
      else SignedIn (the (pref_username p)) (the (pref_token p)))"

section \<open>The collaborators: API client and FIDO2 client\<close>

text \<open>
  \<open>AuthApi\<close> and the FIDO2 client are parameters of the model: each call either raises or
  returns. The options and the pending intent of a ceremony are opaque. Of an authenticator
  response the repository uses \<open>response.keyHandle.toBase64()\<close> only, which is the field
  \<open>keyHandleBase64\<close>. The \<open>Intent\<close> handed to the response operations is its extra
  \<open>FIDO2_KEY_RESPONSE_EXTRA\<close>, deserialised; \<open>None\<close> is an intent without that extra.
\<close>

type_synonym options = string
type_synonym pending_intent = string

record authenticator_response =
  keyHandleBase64 :: string

type_synonym intent = "authenticator_response option"

record auth_api =
  api_username :: "string \<Rightarrow> throwable + string"
  api_password :: "string \<Rightarrow> string \<Rightarrow> throwable + string list"
  api_registerRequest :: "string \<Rightarrow> string \<Rightarrow> throwable + (options \<times> string)"
  api_registerResponse ::
    "string \<Rightarrow> string \<Rightarrow> authenticator_response \<Rightarrow> throwable + Credential list"
  api_signinRequest :: "string \<Rightarrow> string option \<Rightarrow> throwable + (options \<times> string)"
  api_signinResponse ::
    "string \<Rightarrow> string \<Rightarrow> authenticator_response \<Rightarrow> throwable + (Credential list \<times> string)"

text \<open>\<open>Tasks.await(client.getRegisterIntent(options))\<close> and the same for \<open>getSignIntent\<close>.\<close>

record fido2_client =
  getRegisterIntent :: "options \<Rightarrow> throwable + pending_intent"
  getSignIntent :: "options \<Rightarrow> throwable + pending_intent"

section \<open>The repository\<close>

text \<open>
  A listener is the \<open>postValue\<close> of one \<open>LiveData\<close>, named by a number. The effects of an
  operation that leave the repository are recorded, in order, in \<open>trace\<close>: the values posted
  to \<open>processing\<close> or \<open>sending\<close>, the calls of \<open>Log.e\<close>, every \<open>prefs.edit\<close> with its
  \<open>commit\<close> flag and the store it leaves, every call of a listener, and the pending intent
  posted to \<open>result\<close>.
\<close>

type_synonym listener = nat

datatype event =
    Posted bool
  | Logged string throwable
  | Edited bool prefs
  | Notified listener SignInState
  | ResultPosted pending_intent

record repo =
  prefs :: prefs
  fido2ApiClient :: "fido2_client option"
  signInStateListeners :: "listener list"
  lastKnownChallenge :: "string option"
  trace :: "event list"

text \<open>
  The message literals of the source, as UTF-8: the default sign-in error ("user sign-in
  failed"), and the texts logged by \<open>password\<close> ("the sign-in credentials are wrong"),
  \<open>registerRequest\<close> ("cannot call registerRequest") and by both \<open>registerResponse\<close> and
  \<open>signinResponse\<close> ("cannot call registerResponse").
\<close>

definition DEFAULT_SIGN_IN_ERROR :: string where
  "DEFAULT_SIGN_IN_ERROR = map char_of
     [236, 130, 172, 236, 154, 169, 236, 158, 144, 32, 235, 161, 156, 234, 183, 184, 236,
      157, 184, 236, 151, 144, 32, 236, 139, 164, 237, 140, 168, 237, 150, 136, 236, 138,
      181, 235, 139, 136, 235, 139, 164, 46 :: nat]"

definition LOG_PASSWORD :: string where
  "LOG_PASSWORD = map char_of
     [235, 161, 156, 234, 183, 184, 236, 157, 184, 32, 236, 158, 144, 234, 178, 169, 32,
      236, 166, 157, 235, 170, 133, 236, 157, 180, 32, 236, 158, 152, 235, 170, 187, 32,
      235, 144, 152, 236, 151, 136, 236, 138, 181, 235, 139, 136, 235, 139, 164, 46 :: nat]"

definition LOG_REGISTER_REQUEST :: string where
  "LOG_REGISTER_REQUEST = map char_of
     [114, 101, 103, 105, 115, 116, 101, 114, 82, 101, 113, 117, 101, 115, 116, 235, 165,
      188, 32, 237, 152, 184, 236, 182, 156, 237, 149, 160, 32, 236, 136, 152, 32, 236,
      151, 134, 236, 138, 181, 235, 139, 136, 235, 139, 164, 46 :: nat]"

definition LOG_REGISTER_RESPONSE :: string where
  "LOG_REGISTER_RESPONSE = map char_of
     [114, 101, 103, 105, 115, 116, 101, 114, 82, 101, 115, 112, 111, 110, 115, 101, 235,
      165, 188, 32, 237, 152, 184, 236, 182, 156, 237, 149, 160, 32, 236, 136, 152, 32,
      236, 151, 134, 236, 138, 181, 235, 139, 136, 235, 139, 164, 46 :: nat]"

definition emit :: "event \<Rightarrow> repo \<Rightarrow> repo" where
  "emit e r = r\<lparr>trace := trace r @ [e]\<rparr>"

definition edit :: "bool \<Rightarrow> (prefs \<Rightarrow> prefs) \<Rightarrow> repo \<Rightarrow> repo" where
  "edit commit action r =
     (let p = action (prefs r) in r\<lparr>prefs := p, trace := trace r @ [Edited commit p]\<rparr>)"

definition setFido2APiClient :: "fido2_client option \<Rightarrow> repo \<Rightarrow> repo" where
  "setFido2APiClient client r = r\<lparr>fido2ApiClient := client\<rparr>"

text \<open>The loop over a copy of the listener list.\<close>

definition invokeSignInStateListeners :: "SignInState \<Rightarrow> repo \<Rightarrow> repo" where
  "invokeSignInStateListeners state r =
     (let listeners = signInStateListeners r
      in fold (\<lambda>l. emit (Notified l state)) listeners r)"

text \<open>\<open>onActive\<close> and \<open>onInactive\<close> of the \<open>LiveData\<close> whose listener is \<open>l\<close>.\<close>

definition onActive :: "listener \<Rightarrow> repo \<Rightarrow> repo" where
  "onActive l r = r\<lparr>signInStateListeners := signInStateListeners r @ [l]\<rparr>"

definition onInactive :: "listener \<Rightarrow> repo \<Rightarrow> repo" where
  "onInactive l r = r\<lparr>signInStateListeners := remove1 l (signInStateListeners r)\<rparr>"

text \<open>
  Every operation is the body of one \<open>executor.execute\<close> task, run to its end. It returns
  the exception that leaves the task, if any, and the repository the task leaves behind.
\<close>

definition username :: "auth_api \<Rightarrow> string \<Rightarrow> repo \<Rightarrow> throwable option \<times> repo" where
  "username api name r =
     (let r1 = emit (Posted True) r in
      case api_username api name of
        Inl e \<Rightarrow> (Some e, emit (Posted False) r1)
      | Inr result \<Rightarrow>
          (None,
           emit (Posted False)
             (invokeSignInStateListeners (SigningIn name)
               (edit True (\<lambda>p. p\<lparr>pref_username := Some result\<rparr>) r1))))"

text \<open>
  In \<open>password\<close> the stored username is read with \<open>!!\<close> before the \<open>try\<close>, so without it
  the \<open>finally\<close> block is not reached. Only \<open>ApiException\<close> is caught.
\<close>

definition password :: "auth_api \<Rightarrow> string \<Rightarrow> repo \<Rightarrow> throwable option \<times> repo" where
  "password api pw r =
     (let r1 = emit (Posted True) r in
      case pref_username (prefs r1) of
        None \<Rightarrow> (Some NullPointerException, r1)
      | Some uname \<Rightarrow>
          (case api_password api uname pw of
             Inl (ApiException message) \<Rightarrow>
               (None,
                emit (Posted False)
                  (invokeSignInStateListeners
                     (SignInError (case message of None \<Rightarrow> DEFAULT_SIGN_IN_ERROR | Some m \<Rightarrow> m))
                     (edit True
                        (\<lambda>p. p\<lparr>pref_username := None, pref_token := None,
                                pref_credentials := None\<rparr>)
                        (emit (Logged LOG_PASSWORD (ApiException message)) r1))))
           | Inl e \<Rightarrow> (Some e, emit (Posted False) r1)
           | Inr returnData \<Rightarrow>
               (case returnData of
                  token # username2 # _ \<Rightarrow>
                    (None,
                     emit (Posted False)
                       (invokeSignInStateListeners (SignedIn uname token)
                          (edit True (\<lambda>p. p\<lparr>pref_username := Some username2\<rparr>)
                             (edit True (\<lambda>p. p\<lparr>pref_token := Some token\<rparr>) r1))))
                | _ \<Rightarrow> (Some IndexOutOfBoundsException, emit (Posted False) r1))))"

definition getCredentials :: "repo \<Rightarrow> throwable + Credential list" where
  "getCredentials r =
     parseCredentials (case pref_credentials (prefs r) of None \<Rightarrow> [] | Some s \<Rightarrow> s)"

definition clearToken :: "repo \<Rightarrow> throwable option \<times> repo" where
  "clearToken r =
     (case pref_username (prefs r) of
        None \<Rightarrow> (Some NullPointerException, r)
      | Some uname \<Rightarrow>
          (None,
           invokeSignInStateListeners (SigningIn uname)
             (edit True (\<lambda>p. p\<lparr>pref_token := None, pref_credentials := None\<rparr>) r)))"

definition signOut :: "repo \<Rightarrow> throwable option \<times> repo" where
  "signOut r =
     (None,
      invokeSignInStateListeners SignedOut
        (edit True
           (\<lambda>p. p\<lparr>pref_username := None, pref_token := None, pref_credentials := None\<rparr>) r))"

text \<open>\<open>registerRequest\<close> catches every \<open>Exception\<close> of its body and logs it.\<close>

definition registerRequest_caught :: "throwable \<Rightarrow> repo \<Rightarrow> throwable option \<times> repo" where
  "registerRequest_caught e r =
     (None, emit (Posted False) (emit (Logged LOG_REGISTER_REQUEST e) r))"

definition registerRequest :: "auth_api \<Rightarrow> repo \<Rightarrow> throwable option \<times> repo" where
  "registerRequest api r =
     (case fido2ApiClient r of
        None \<Rightarrow> (None, r)
      | Some client \<Rightarrow>
          (let r1 = emit (Posted True) r in
           case pref_token (prefs r1) of
             None \<Rightarrow> registerRequest_caught NullPointerException r1
           | Some token \<Rightarrow>
               (case pref_username (prefs r1) of
                  None \<Rightarrow> registerRequest_caught NullPointerException r1
                | Some uname \<Rightarrow>
                    (case api_registerRequest api token uname of
                       Inl e \<Rightarrow> registerRequest_caught e r1
                     | Inr (opts, challenge) \<Rightarrow>
                         (let r2 = r1\<lparr>lastKnownChallenge := Some challenge\<rparr> in
                          case getRegisterIntent client opts of
                            Inl e \<Rightarrow> registerRequest_caught e r2
                          | Inr pending \<Rightarrow>
                              (None, emit (Posted False) (emit (ResultPosted pending) r2)))))))"

text \<open>
  \<open>registerResponse\<close> catches \<open>ApiException\<close> only; its edit is applied without
  \<open>commit = true\<close>.
\<close>

definition registerResponse :: "auth_api \<Rightarrow> intent \<Rightarrow> repo \<Rightarrow> throwable option \<times> repo" where
  "registerResponse api data r =
     (let r1 = emit (Posted True) r in
      case pref_token (prefs r1) of
        None \<Rightarrow> (Some NullPointerException, emit (Posted False) r1)
      | Some token \<Rightarrow>
          (case lastKnownChallenge r1 of
             None \<Rightarrow> (Some NullPointerException, emit (Posted False) r1)
           | Some challenge \<Rightarrow>
               (case data of
                  None \<Rightarrow> (Some NullPointerException, emit (Posted False) r1)
                | Some response \<Rightarrow>
                    (let credentialId = keyHandleBase64 response in
                     case api_registerResponse api token challenge response of
                       Inl (ApiException message) \<Rightarrow>
                         (None,
                          emit (Posted False)
                            (emit (Logged LOG_REGISTER_RESPONSE (ApiException message)) r1))
                     | Inl e \<Rightarrow> (Some e, emit (Posted False) r1)
                     | Inr credentials \<Rightarrow>
                         (None,
                          emit (Posted False)
                            (edit False
                               (\<lambda>p. p\<lparr>pref_credentials := Some (toStringSet credentials),
                                       pref_local_credential_id := Some credentialId\<rparr>)
                               r1))))))"

text \<open>\<open>signinRequest\<close> has a \<open>finally\<close> block and no \<open>catch\<close>.\<close>

definition signinRequest :: "auth_api \<Rightarrow> repo \<Rightarrow> throwable option \<times> repo" where
  "signinRequest api r =
     (case fido2ApiClient r of
        None \<Rightarrow> (None, r)
      | Some client \<Rightarrow>
          (let r1 = emit (Posted True) r in
           case pref_username (prefs r1) of
             None \<Rightarrow> (Some NullPointerException, emit (Posted False) r1)
           | Some uname \<Rightarrow>
               (let credentialId = pref_local_credential_id (prefs r1) in
                case api_signinRequest api uname credentialId of
                  Inl e \<Rightarrow> (Some e, emit (Posted False) r1)
                | Inr (opts, challenge) \<Rightarrow>
                    (let r2 = r1\<lparr>lastKnownChallenge := Some challenge\<rparr> in
                     case getSignIntent client opts of
                       Inl e \<Rightarrow> (Some e, emit (Posted False) r2)
                     | Inr pending \<Rightarrow>
                         (None, emit (Posted False) (emit (ResultPosted pending) r2))))))"

text \<open>
  In \<open>signinResponse\<close> the extra is handed to \<open>deserializeFromBytes\<close> without \<open>!!\<close>; the
  deserialiser is taken to raise on \<open>null\<close>.
\<close>

definition signinResponse :: "auth_api \<Rightarrow> intent \<Rightarrow> repo \<Rightarrow> throwable option \<times> repo" where
  "signinResponse api data r =
     (let r1 = emit (Posted True) r in
      case pref_username (prefs r1) of
        None \<Rightarrow> (Some NullPointerException, emit (Posted False) r1)
      | Some uname \<Rightarrow>
          (case lastKnownChallenge r1 of
             None \<Rightarrow> (Some NullPointerException, emit (Posted False) r1)
           | Some challenge \<Rightarrow>
               (case data of
                  None \<Rightarrow> (Some NullPointerException, emit (Posted False) r1)
                | Some response \<Rightarrow>
                    (let credentialId = keyHandleBase64 response in
                     case api_signinResponse api uname challenge response of
                       Inl (ApiException message) \<Rightarrow>
                         (None,
                          emit (Posted False)
                            (emit (Logged LOG_REGISTER_RESPONSE (ApiException message)) r1))
                     | Inl e \<Rightarrow> (Some e, emit (Posted False) r1)
                     | Inr (credentials, token) \<Rightarrow>
                         (None,
                          emit (Posted False)
                            (invokeSignInStateListeners (SignedIn uname token)
                               (edit True
                                  (\<lambda>p. p\<lparr>pref_token := Some token,
                                          pref_credentials := Some (toStringSet credentials),
                                          pref_local_credential_id := Some credentialId\<rparr>)
                                  r1)))))))"

text \<open>
  The executor is a pool of 64 threads and the tasks take no lock, so tasks of other
  threads may run while \<open>signinResponse\<close> waits for the API. For such runs the task is cut
  at the call of the API: \<open>signinResponse_read\<close> is the part before the call, which reads
  the username, the challenge and the response into local values, and
  \<open>signinResponse_commit\<close> is the call with these values and all that follows it.
\<close>

definition signinResponse_read ::
  "intent \<Rightarrow> repo \<Rightarrow> (throwable + string \<times> string \<times> authenticator_response) \<times> repo" where
  "signinResponse_read data r =
     (let r1 = emit (Posted True) r in
      case pref_username (prefs r1) of
        None \<Rightarrow> (Inl NullPointerException, emit (Posted False) r1)
      | Some uname \<Rightarrow>
          (case lastKnownChallenge r1 of
             None \<Rightarrow> (Inl NullPointerException, emit (Posted False) r1)
           | Some challenge \<Rightarrow>
               (case data of
                  None \<Rightarrow> (Inl NullPointerException, emit (Posted False) r1)
                | Some response \<Rightarrow> (Inr (uname, challenge, response), r1))))"

definition signinResponse_commit ::
  "auth_api \<Rightarrow> string \<times> string \<times> authenticator_response \<Rightarrow> repo \<Rightarrow> throwable option \<times> repo"
  where
  "signinResponse_commit api locals r1 =
     (case locals of
        (uname, challenge, response) \<Rightarrow>
          (let credentialId = keyHandleBase64 response in
           case api_signinResponse api uname challenge response of
             Inl (ApiException message) \<Rightarrow>
               (None,
                emit (Posted False)
                  (emit (Logged LOG_REGISTER_RESPONSE (ApiException message)) r1))
           | Inl e \<Rightarrow> (Some e, emit (Posted False) r1)
           | Inr (credentials, token) \<Rightarrow>
               (None,
                emit (Posted False)
                  (invokeSignInStateListeners (SignedIn uname token)
                     (edit True
                        (\<lambda>p. p\<lparr>pref_token := Some token,
                                pref_credentials := Some (toStringSet credentials),
                                pref_local_credential_id := Some credentialId\<rparr>)
                        r1)))))"

section \<open>Runs of the repository\<close>

text \<open>
  One constructor for each entry point, carrying its arguments and the API that answers
  it. \<open>run\<close> gives the runs in which the tasks come one after another, each one ended
  before the next begins. A task that raises leaves the repository as the task left it,
  and the next one runs.
\<close>

datatype op =
    Username auth_api string
  | Password auth_api string
  | ClearToken
  | SignOut
  | RegisterRequest auth_api
  | RegisterResponse auth_api intent
  | SigninRequest auth_api
  | SigninResponse auth_api intent
  | SetFido2APiClient "fido2_client option"
  | OnActive listener
  | OnInactive listener

fun exec :: "op \<Rightarrow> repo \<Rightarrow> throwable option \<times> repo" where
  "exec (Username api name) r = username api name r"
| "exec (Password api pw) r = password api pw r"
| "exec ClearToken r = clearToken r"
| "exec SignOut r = signOut r"
| "exec (RegisterRequest api) r = registerRequest api r"
| "exec (RegisterResponse api data) r = registerResponse api data r"
| "exec (SigninRequest api) r = signinRequest api r"
| "exec (SigninResponse api data) r = signinResponse api data r"
| "exec (SetFido2APiClient client) r = (None, setFido2APiClient client r)"
| "exec (OnActive l) r = (None, onActive l r)"
| "exec (OnInactive l) r = (None, onInactive l r)"

fun run :: "op list \<Rightarrow> repo \<Rightarrow> repo" where
  "run [] r = r"
| "run (x # xs) r = run xs (snd (exec x r))"

definition emptyPrefs :: prefs where
  "emptyPrefs = \<lparr>pref_username = None, pref_token = None, pref_credentials = None,
     pref_local_credential_id = None\<rparr>"

definition initial :: repo where
  "initial = \<lparr>prefs = emptyPrefs, fido2ApiClient = None, signInStateListeners = [],
     lastKnownChallenge = None, trace = []\<rparr>"

section \<open>Sample collaborators for the concrete instances\<close>

text \<open>
  A server that knows one password and one registered key, a server that rejects every
  call with an \<open>ApiException\<close> without message, a server that cannot be reached (every
  call raises an exception that is no \<open>ApiException\<close>), and a FIDO2 client that answers.
\<close>

definition sample_api :: auth_api where
  "sample_api =
     \<lparr>api_username = (\<lambda>name. Inr name),
      api_password = (\<lambda>uname pw.
        if pw = ''secret'' then Inr [''token-1'', ''Bob'']
        else Inl (ApiException (Some ''invalid credentials''))),
      api_registerRequest = (\<lambda>token uname. Inr (''register-options'', ''challenge-1'')),
      api_registerResponse = (\<lambda>token challenge response.
        Inr [Credential (keyHandleBase64 response) ''public-key'']),
      api_signinRequest = (\<lambda>uname credentialId.
        if credentialId = Some ''key-1'' then Inr (''sign-options'', ''challenge-2'')
        else Inl (ApiException (Some ''unknown key''))),
      api_signinResponse = (\<lambda>uname challenge response.
        Inr ([Credential (keyHandleBase64 response) ''public-key''], ''token-2''))\<rparr>"

definition rejecting_api :: auth_api where
  "rejecting_api =
     \<lparr>api_username = (\<lambda>name. Inl (ApiException None)),
      api_password = (\<lambda>uname pw. Inl (ApiException None)),
      api_registerRequest = (\<lambda>token uname. Inl (ApiException None)),
      api_registerResponse = (\<lambda>token challenge response. Inl (ApiException None)),
      api_signinRequest = (\<lambda>uname credentialId. Inl (ApiException None)),
      api_signinResponse = (\<lambda>uname challenge response. Inl (ApiException None))\<rparr>"

definition unreachable_api :: auth_api where
  "unreachable_api =
     \<lparr>api_username = (\<lambda>name. Inl OtherException),
      api_password = (\<lambda>uname pw. Inl OtherException),
      api_registerRequest = (\<lambda>token uname. Inl OtherException),
      api_registerResponse = (\<lambda>token challenge response. Inl OtherException),
      api_signinRequest = (\<lambda>uname credentialId. Inl OtherException),
      api_signinResponse = (\<lambda>uname challenge response. Inl OtherException)\<rparr>"

definition sample_client :: fido2_client where
  "sample_client =
     \<lparr>getRegisterIntent = (\<lambda>opts. Inr ''register-intent''),
      getSignIntent = (\<lambda>opts. Inr ''sign-intent'')\<rparr>"

text \<open>
  A user who signed in with the password, registered the key \<open>key-1\<close>, cleared the token
  and asked to sign in with the key: the state in which the response of the key arrives.
\<close>

definition awaiting_response :: repo where
  "awaiting_response =
     run [SetFido2APiClient (Some sample_client),
          Username sample_api ''bob'',
          Password sample_api ''secret'',
          RegisterRequest sample_api,
          RegisterResponse sample_api (Some \<lparr>keyHandleBase64 = ''key-1''\<rparr>),
          ClearToken,
          SigninRequest sample_api]
       initial"

text \<open>
  The white-space test on strings of ASCII characters, where \<open>Char.isWhitespace\<close> holds of
  U+0009 to U+000D and U+001C to U+0020. The concrete instances use ASCII strings only.
\<close>

definition ascii_allWhitespace :: "string \<Rightarrow> bool" where
  "ascii_allWhitespace s =
     list_all (\<lambda>c. (9 \<le> (of_char c :: nat) \<and> (of_char c :: nat) \<le> 13) \<or>
                    (28 \<le> (of_char c :: nat) \<and> (of_char c :: nat) \<le> 32)) s"

text \<open>A signed-in user with one registered key, and two listeners.\<close>

definition sample_prefs :: prefs where
  "sample_prefs =
     \<lparr>pref_username = Some ''bob'', pref_token = Some ''token-0'',
      pref_credentials = Some [''0;key-1;public-key''],
      pref_local_credential_id = Some ''key-1''\<rparr>"

definition sample_repo :: repo where
  "sample_repo =
     \<lparr>prefs = sample_prefs, fido2ApiClient = Some sample_client,
      signInStateListeners = [0, 1], lastKnownChallenge = Some ''challenge-0'', trace = []\<rparr>"

section \<open>Notions used by the properties\<close>

text \<open>The events an operation added to the trace, and the states it delivered to a listener.\<close>

definition new_events :: "repo \<Rightarrow> repo \<Rightarrow> event list" where
  "new_events r r' = drop (length (trace r)) (trace r')"

fun delivered_to :: "listener \<Rightarrow> event list \<Rightarrow> SignInState list" where
  "delivered_to l [] = []"
| "delivered_to l (Notified l' s # es) =
     (if l' = l then s # delivered_to l es else delivered_to l es)"
| "delivered_to l (_ # es) = delivered_to l es"

text \<open>
  An operation from \<open>r\<close> to \<open>r'\<close> notifies with \<open>ss\<close> when every listener registered in \<open>r\<close>
  was called with exactly the states \<open>ss\<close>, in this order, and no other listener was called.
\<close>

definition notifies :: "repo \<Rightarrow> repo \<Rightarrow> SignInState list \<Rightarrow> bool" where
  "notifies r r' ss =
     (\<forall>l. delivered_to l (new_events r r') = (if l \<in> set (signInStateListeners r) then ss else []))"

definition token_needs_username :: "prefs \<Rightarrow> bool" where
  "token_needs_username p = (pref_token p \<noteq> None \<longrightarrow> pref_username p \<noteq> None)"

text \<open>
  The invariant of the store: it holds of the store itself and of the store left by every
  edit on the trace, so also between the two edits of one task.
\<close>

definition edits_ok :: "event list \<Rightarrow> bool" where
  "edits_ok es = (\<forall>c p. Edited c p \<in> set es \<longrightarrow> token_needs_username p)"

definition store_inv :: "repo \<Rightarrow> bool" where
  "store_inv r = (token_needs_username (prefs r) \<and> edits_ok (trace r))"

section \<open>Facts about the codec\<close>

lemma split_str_no_delim: "d \<notin> set a \<Longrightarrow> split_str d a = [a]"
  by (induction a) auto

lemma split_str_append: "d \<notin> set a \<Longrightarrow> split_str d (a @ d # rest) = a # split_str d rest"
  by (induction a) auto

lemma split_str_not_Nil: "split_str d s \<noteq> []"
  by (induction s) (auto split: list.splits)

lemma parseRecord_wellformed:
  assumes "CHR '';'' \<notin> set i" "CHR '';'' \<notin> set a" "CHR '';'' \<notin> set b"
  shows "parseRecord (i @ '';'' @ a @ '';'' @ b) = Inr (i, Credential a b)"
  using assms by (simp add: parseRecord_def split_str_append split_str_no_delim)

lemma of_char_digit_char: "d < 10 \<Longrightarrow> (of_char (digit_char d) :: nat) = 48 + d"
  by (simp add: digit_char_def)

lemma digit_char_not_delim: "d < 10 \<Longrightarrow> digit_char d \<noteq> CHR '';''"
proof
  assume "d < 10" and "digit_char d = CHR '';''"
  then have "(of_char (digit_char d) :: nat) = of_char CHR '';''" by simp
  with \<open>d < 10\<close> show False by (simp add: of_char_digit_char)
qed

lemma digit_char_less: "i < j \<Longrightarrow> j < 10 \<Longrightarrow> digit_char i < digit_char j"
  by (simp add: less_char_def of_char_digit_char)

lemma intToString_small: "n < 10 \<Longrightarrow> intToString n = [digit_char n]"
  by (simp add: intToString.simps)

lemma toSet_aux:
  "distinct xs \<Longrightarrow> set xs \<inter> set s = {} \<Longrightarrow>
   fold (\<lambda>x s. if x \<in> set s then s else s @ [x]) xs s = s @ xs"
  by (induction xs arbitrary: s) auto

lemma toSet_distinct: "distinct xs \<Longrightarrow> toSet xs = xs"
  using toSet_aux [of xs "[]"] by (simp add: toSet_def)

lemma mapRaising_all_Inr:
  "\<forall>x\<in>set xs. f x = Inr (g x) \<Longrightarrow> mapRaising f xs = Inr (map g xs)"
  by (induction xs) auto

lemma filter_key_single:
  "distinct (map f zs) \<Longrightarrow> k \<in> set zs \<Longrightarrow> filter (\<lambda>x. f k = f x) zs = [k]"
  by (induction zs) (auto simp: filter_empty_conv image_iff)

text \<open>A stable sort on keys that are pairwise different has one possible result.\<close>

lemma sort_key_unique:
  assumes "mset xs = mset ys" "sorted (map f ys)" "distinct (map f ys)"
  shows "sort_key f xs = ys"
proof (rule properties_for_sort_key)
  show "mset ys = mset xs" using assms(1) by simp
  show "sorted (map f ys)" by fact
  fix k assume k: "k \<in> set ys"
  have "mset (map f xs) = mset (map f ys)" using assms(1) by (metis mset_map)
  then have dx: "distinct (map f xs)" using assms(3) by (metis mset_eq_imp_distinct_iff)
  have kx: "k \<in> set xs" using k assms(1) by (metis mset_eq_setD)
  show "filter (\<lambda>x. f k = f x) ys = filter (\<lambda>x. f k = f x) xs"
    by (simp add: filter_key_single [OF assms(3) k] filter_key_single [OF dx kx])
qed

text \<open>The index strings of at most ten records are single digits, in increasing order.\<close>

lemma index_strings_strict:
  assumes "n \<le> 10"
  shows "sorted_wrt (<) (map intToString [0..<n])"
  unfolding sorted_wrt_iff_nth_less
proof (intro allI impI)
  fix i j assume "i < j" "j < length (map intToString [0..<n])"
  then have "j < 10" "i < 10" "i < n" "j < n" using assms by auto
  then show "map intToString [0..<n] ! i < map intToString [0..<n] ! j"
    using \<open>i < j\<close> by (simp add: digit_char_less intToString_small)
qed

lemma parseRecord_encoded:
  assumes "index < 10" "CHR '';'' \<notin> set (cred_id c)" "CHR '';'' \<notin> set (publicKey c)"
  shows "parseRecord (intToString index @ '';'' @ cred_id c @ '';'' @ publicKey c)
         = Inr (intToString index, c)"
proof -
  have "CHR '';'' \<notin> set (intToString index)"
    using assms(1) digit_char_not_delim [of index] by (auto simp: intToString_small)
  then show ?thesis
    using parseRecord_wellformed [OF _ assms(2) assms(3), of "intToString index"] by simp
qed

section \<open>Facts about the effects\<close>

lemma fold_emit_Notified:
  "fold (\<lambda>l. emit (Notified l s)) ls r = r\<lparr>trace := trace r @ map (\<lambda>l. Notified l s) ls\<rparr>"
  by (induction ls arbitrary: r) (simp_all add: emit_def)

lemma invokeSignInStateListeners_eq:
  "invokeSignInStateListeners s r =
   r\<lparr>trace := trace r @ map (\<lambda>l. Notified l s) (signInStateListeners r)\<rparr>"
  by (simp add: invokeSignInStateListeners_def fold_emit_Notified)

lemma edit_eq:
  "edit c a r = r\<lparr>prefs := a (prefs r), trace := trace r @ [Edited c (a (prefs r))]\<rparr>"
  by (simp add: edit_def Let_def)

lemmas effects = emit_def edit_eq invokeSignInStateListeners_eq

lemma delivered_to_append:
  "delivered_to l (xs @ ys) = delivered_to l xs @ delivered_to l ys"
  by (induction l xs rule: delivered_to.induct) simp_all

lemma delivered_to_absent:
  "l \<notin> set ls \<Longrightarrow> delivered_to l (map (\<lambda>l'. Notified l' s) ls) = []"
  by (induction ls) auto

lemma delivered_to_broadcast:
  "distinct ls \<Longrightarrow>
   delivered_to l (map (\<lambda>l'. Notified l' s) ls) = (if l \<in> set ls then [s] else [])"
  by (induction ls) (auto simp: delivered_to_absent)

section \<open>The round trip of the codec\<close>

text \<open>
  Up to ten credentials the round trip holds: when ids and public keys contain no
  delimiter \<open>;\<close>, decoding the encoded record set gives back the sequence in its order,
  whatever the iteration order of the set.
\<close>

lemma roundtrip_up_to_ten:
  assumes len: "length cs \<le> 10"
    and free: "\<forall>c\<in>set cs. CHR '';'' \<notin> set (cred_id c) \<and> CHR '';'' \<notin> set (publicKey c)"
    and perm: "mset records = mset (toStringSet cs)"
  shows "parseCredentials records = Inr cs"
proof -
  define enc where "enc = (\<lambda>(index, credential).
    intToString index @ '';'' @ cred_id credential @ '';'' @ publicKey credential)"
  define es where "es = map enc (enumerate 0 cs)"
  define ps where "ps = map (\<lambda>(index, c). (intToString index, c)) (enumerate 0 cs)"
  define P where "P = (\<lambda>r. projr (parseRecord r))"
  have parse: "parseRecord (enc p) = Inr (case p of (index, c) \<Rightarrow> (intToString index, c))"
    if "p \<in> set (enumerate 0 cs)" for p
  proof -
    obtain index c where p: "p = (index, c)" by (cases p)
    with that have "index < length cs" "c \<in> set cs"
      by (auto simp: in_set_enumerate_eq)
    with len free p show ?thesis
      using parseRecord_encoded [of index c] by (simp add: enc_def)
  qed
  have keys: "map fst ps = map intToString [0..<length cs]"
  proof -
    have "map fst ps = map (intToString \<circ> fst) (enumerate 0 cs)"
      by (simp add: ps_def case_prod_unfold comp_def)
    also have "\<dots> = map intToString (map fst (enumerate 0 cs))"
      by (simp only: map_map)
    also have "\<dots> = map intToString [0..<length cs]"
      by (simp only: map_fst_enumerate) simp
    finally show ?thesis .
  qed
  have vals: "map snd ps = cs"
  proof -
    have "map snd ps = map snd (enumerate 0 cs)"
      by (simp add: ps_def case_prod_unfold comp_def)
    then show ?thesis by simp
  qed
  have strict: "sorted_wrt (<) (map fst ps)"
    using index_strings_strict [OF len] keys by simp
  then have sorted: "sorted (map fst ps)" and dist: "distinct (map fst ps)"
    by (simp_all add: strict_sorted_iff)
  have Pes: "map P es = ps"
    by (simp add: es_def ps_def P_def parse)
  have "distinct (map (fst \<circ> P) es)"
    using dist Pes by (metis map_map)
  then have "distinct es" by (metis distinct_map)
  moreover have "toStringSet cs = toSet es"
    by (simp add: toStringSet_def mapIndexed_def es_def enc_def)
  ultimately have enc_eq: "toStringSet cs = es" by (simp add: toSet_distinct)
  have in_es: "parseRecord r = Inr (P r)" if "r \<in> set es" for r
    using that parse by (auto simp: es_def P_def)
  have "set records = set es" using perm enc_eq by (metis mset_eq_setD)
  then have "mapRaising parseRecord records = Inr (map P records)"
    using in_es by (intro mapRaising_all_Inr) simp
  moreover have "mset (map P records) = mset ps"
    using perm enc_eq Pes by (metis mset_map)
  then have "sort_key fst (map P records) = ps"
    using sorted dist by (rule sort_key_unique)
  ultimately show ?thesis by (simp add: parseCredentials_def vals)
qed

text \<open>
  Claim C1. The law \<open>decode (encode x) = x\<close> asks for the records to be sorted by the
  number of their index. The code sorts the index as the string that \<open>split\<close> returned,
  and \<open>"10"\<close> comes before \<open>"2"\<close>: eleven credentials with the unique, delimiter-free
  ids \<open>"0"\<close> to \<open>"10"\<close> and a delimiter-free public key are encoded with the indices
  0 to 10 and decoded in the order 0, 1, 10, 2, 3, ..., 9, so the decoded sequence is not
  the encoded one.
\<close>

theorem roundtrip_fails_at_eleven:
  "distinct (map cred_id (map (\<lambda>i. Credential (intToString i) ''k'') [0..<11])) \<and>
   list_all (\<lambda>c. CHR '';'' \<notin> set (cred_id c) \<and> CHR '';'' \<notin> set (publicKey c))
     (map (\<lambda>i. Credential (intToString i) ''k'') [0..<11]) \<and>
   toStringSet (map (\<lambda>i. Credential (intToString i) ''k'') [0..<11]) =
     [''0;0;k'', ''1;1;k'', ''2;2;k'', ''3;3;k'', ''4;4;k'', ''5;5;k'', ''6;6;k'', ''7;7;k'',
      ''8;8;k'', ''9;9;k'', ''10;10;k''] \<and>
   parseCredentials (toStringSet (map (\<lambda>i. Credential (intToString i) ''k'') [0..<11])) =
     Inr (map (\<lambda>i. Credential (intToString i) ''k'') [0, 1, 10, 2, 3, 4, 5, 6, 7, 8, 9]) \<and>
   parseCredentials (toStringSet (map (\<lambda>i. Credential (intToString i) ''k'') [0..<11])) \<noteq>
     Inr (map (\<lambda>i. Credential (intToString i) ''k'') [0..<11])"
  by code_simp

section \<open>Sign-out\<close>

text \<open>
  Claim C4. From every state, \<open>signOut\<close> removes username, token and credentials from the
  store, the state derived from the store is then \<open>SignedOut\<close>, and after the edit every
  registered listener is called with \<open>SignedOut\<close>.
\<close>

theorem signOut_clears_store:
  "fst (signOut r) = None \<and>
   prefs (snd (signOut r)) =
     (prefs r)\<lparr>pref_username := None, pref_token := None, pref_credentials := None\<rparr> \<and>
   getSignInState allWhitespace (prefs (snd (signOut r))) = SignedOut \<and>
   new_events r (snd (signOut r)) =
     Edited True (prefs (snd (signOut r))) #
     map (\<lambda>l. Notified l SignedOut) (signInStateListeners r)"
  by (simp add: signOut_def effects new_events_def getSignInState_def isNullOrBlank_def)

section \<open>The derived sign-in state\<close>

text \<open>
  Claim C2, as the code has it. Whatever the platform's white-space test is, the derived
  state is a function of the username and token fields of the store alone. It is
  \<open>SignedOut\<close> when the username is absent or blank; \<open>SigningIn username\<close> when the username
  is present and not blank and the token is absent or blank; \<open>SignedIn username token\<close> when
  both are present and not blank.
\<close>

theorem getSignInState_from_store:
  "(isNullOrBlank allWhitespace (pref_username p) \<longrightarrow>
      getSignInState allWhitespace p = SignedOut) \<and>
   (\<forall>u. pref_username p = Some u \<and> \<not> isBlank allWhitespace u \<and>
        isNullOrBlank allWhitespace (pref_token p)
        \<longrightarrow> getSignInState allWhitespace p = SigningIn u) \<and>
   (\<forall>u t. pref_username p = Some u \<and> \<not> isBlank allWhitespace u \<and>
        pref_token p = Some t \<and> \<not> isBlank allWhitespace t
        \<longrightarrow> getSignInState allWhitespace p = SignedIn u t) \<and>
   (\<forall>q. pref_username q = pref_username p \<and> pref_token q = pref_token p
        \<longrightarrow> getSignInState allWhitespace q = getSignInState allWhitespace p)"
  by (auto simp add: getSignInState_def isNullOrBlank_def)

text \<open>The three cases at an empty store, a store without token and a full store.\<close>

theorem getSignInState_from_store_witness:
  "isNullOrBlank ascii_allWhitespace (pref_username emptyPrefs) \<and>
   getSignInState ascii_allWhitespace emptyPrefs = SignedOut \<and>
   \<not> isBlank ascii_allWhitespace ''bob'' \<and>
   isNullOrBlank ascii_allWhitespace (pref_token (sample_prefs\<lparr>pref_token := None\<rparr>)) \<and>
   getSignInState ascii_allWhitespace (sample_prefs\<lparr>pref_token := None\<rparr>) = SigningIn ''bob'' \<and>
   \<not> isBlank ascii_allWhitespace ''token-0'' \<and>
   getSignInState ascii_allWhitespace sample_prefs = SignedIn ''bob'' ''token-0'' \<and>
   getSignInState ascii_allWhitespace (sample_prefs\<lparr>pref_credentials := None\<rparr>)
     = getSignInState ascii_allWhitespace sample_prefs"
proof -
  let ?w = ascii_allWhitespace
  let ?p = "sample_prefs\<lparr>pref_token := None\<rparr>"
  let ?q = "sample_prefs\<lparr>pref_credentials := None\<rparr>"
  have h1: "isNullOrBlank ?w (pref_username emptyPrefs)"
    by (simp add: emptyPrefs_def isNullOrBlank_def)
  have h2: "isNullOrBlank ?w (pref_token ?p)"
    by (simp add: isNullOrBlank_def)
  have h3: "pref_username ?p = Some ''bob''"
    and h4: "pref_username sample_prefs = Some ''bob''"
    and h5: "pref_token sample_prefs = Some ''token-0''"
    and h6: "pref_username ?q = pref_username sample_prefs"
    and h7: "pref_token ?q = pref_token sample_prefs"
    by (simp_all add: sample_prefs_def)
  have b1: "\<not> isBlank ?w ''bob''" and b2: "\<not> isBlank ?w ''token-0''"
    by (simp_all add: isBlank_def ascii_allWhitespace_def)
  have "getSignInState ?w emptyPrefs = SignedOut"
    using getSignInState_from_store [of ?w emptyPrefs] h1 by blast
  moreover have "getSignInState ?w ?p = SigningIn ''bob''"
    using getSignInState_from_store [of ?w ?p] h2 h3 b1 by blast
  moreover have "getSignInState ?w sample_prefs = SignedIn ''bob'' ''token-0''"
    using getSignInState_from_store [of ?w sample_prefs] h4 h5 b1 b2 by blast
  moreover have "getSignInState ?w ?q = getSignInState ?w sample_prefs"
    using getSignInState_from_store [of ?w sample_prefs] h6 h7 by blast
  ultimately show ?thesis using h1 h2 b1 b2 by blast
qed

text \<open>
  Presence alone does not decide the state: a stored empty username gives \<open>SignedOut\<close>
  (the empty string is blank whatever the white-space test), and a stored token of one
  space gives \<open>SigningIn\<close>.
\<close>

theorem getSignInState_counterexample:
  "getSignInState ascii_allWhitespace
     \<lparr>pref_username = Some '''', pref_token = None, pref_credentials = None,
      pref_local_credential_id = None\<rparr> = SignedOut \<and>
   getSignInState ascii_allWhitespace
     \<lparr>pref_username = Some ''bob'', pref_token = Some '' '', pref_credentials = None,
      pref_local_credential_id = None\<rparr> = SigningIn ''bob''"
  by (simp add: getSignInState_def isNullOrBlank_def isBlank_def ascii_allWhitespace_def)

section \<open>Signing in with a password\<close>

text \<open>
  Claim C3. Whenever \<open>password\<close> calls the API and the API raises an \<open>ApiException\<close>, the
  task logs it, removes username, token and credentials from the store in one committed
  edit, and after that calls every listener with \<open>SignInError\<close>, carrying the message of
  the exception or, when it has none, the default message. No exception leaves the task.
\<close>

theorem password_mismatch_resets:
  assumes "pref_username (prefs r) = Some u"
    and "api_password api u pw = Inl (ApiException message)"
  shows "fst (password api pw r) = None \<and>
    prefs (snd (password api pw r)) =
      (prefs r)\<lparr>pref_username := None, pref_token := None, pref_credentials := None\<rparr> \<and>
    new_events r (snd (password api pw r)) =
      [Posted True, Logged LOG_PASSWORD (ApiException message),
       Edited True
         ((prefs r)\<lparr>pref_username := None, pref_token := None, pref_credentials := None\<rparr>)] @
      map (\<lambda>l. Notified l
             (SignInError (case message of None \<Rightarrow> DEFAULT_SIGN_IN_ERROR | Some m \<Rightarrow> m)))
        (signInStateListeners r) @
      [Posted False]"
  using assms by (simp add: password_def effects new_events_def)

text \<open>A wrong password with a server message, and a rejection without message.\<close>

theorem password_mismatch_resets_witness:
  "fst (password sample_api ''wrongpw'' sample_repo) = None \<and>
   prefs (snd (password sample_api ''wrongpw'' sample_repo)) =
     \<lparr>pref_username = None, pref_token = None, pref_credentials = None,
      pref_local_credential_id = Some ''key-1''\<rparr> \<and>
   new_events sample_repo (snd (password sample_api ''wrongpw'' sample_repo)) =
     [Posted True, Logged LOG_PASSWORD (ApiException (Some ''invalid credentials'')),
      Edited True \<lparr>pref_username = None, pref_token = None, pref_credentials = None,
        pref_local_credential_id = Some ''key-1''\<rparr>,
      Notified 0 (SignInError ''invalid credentials''),
      Notified 1 (SignInError ''invalid credentials''), Posted False] \<and>
   new_events sample_repo (snd (password rejecting_api ''secret'' sample_repo)) =
     [Posted True, Logged LOG_PASSWORD (ApiException None),
      Edited True \<lparr>pref_username = None, pref_token = None, pref_credentials = None,
        pref_local_credential_id = Some ''key-1''\<rparr>,
      Notified 0 (SignInError DEFAULT_SIGN_IN_ERROR),
      Notified 1 (SignInError DEFAULT_SIGN_IN_ERROR), Posted False]"
  using password_mismatch_resets
      [of sample_repo "''bob''" sample_api "''wrongpw''" "Some ''invalid credentials''"]
    password_mismatch_resets [of sample_repo "''bob''" rejecting_api "''secret''" None]
  by (simp add: sample_repo_def sample_prefs_def sample_api_def rejecting_api_def)

text \<open>
  Claim C9. After a successful \<open>password\<close> the store holds the second element of the
  API's answer (\<open>username2\<close>) as username and the first as token, while every listener is
  called with \<open>SignedIn\<close> carrying the username that was read from the store before the
  API call.
\<close>

theorem password_success_swaps_username:
  assumes "pref_username (prefs r) = Some u"
    and "api_password api u pw = Inr (token # username2 # rest)"
  shows "fst (password api pw r) = None \<and>
    pref_username (prefs (snd (password api pw r))) = Some username2 \<and>
    pref_token (prefs (snd (password api pw r))) = Some token \<and>
    new_events r (snd (password api pw r)) =
      [Posted True,
       Edited True ((prefs r)\<lparr>pref_token := Some token\<rparr>),
       Edited True ((prefs r)\<lparr>pref_token := Some token, pref_username := Some username2\<rparr>)] @
      map (\<lambda>l. Notified l (SignedIn u token)) (signInStateListeners r) @
      [Posted False]"
  using assms by (simp add: password_def effects new_events_def)

text \<open>The stored \<open>bob\<close> becomes the server's \<open>Bob\<close>; the listeners hear \<open>bob\<close>.\<close>

theorem password_success_swaps_username_witness:
  "pref_username (prefs sample_repo) = Some ''bob'' \<and>
   pref_username (prefs (snd (password sample_api ''secret'' sample_repo))) = Some ''Bob'' \<and>
   pref_token (prefs (snd (password sample_api ''secret'' sample_repo))) = Some ''token-1'' \<and>
   delivered_to 0 (new_events sample_repo (snd (password sample_api ''secret'' sample_repo)))
     = [SignedIn ''bob'' ''token-1''] \<and>
   delivered_to 1 (new_events sample_repo (snd (password sample_api ''secret'' sample_repo)))
     = [SignedIn ''bob'' ''token-1'']"
  using password_success_swaps_username
      [of sample_repo "''bob''" sample_api "''secret''" "''token-1''" "''Bob''" "[]"]
  by (simp add: sample_repo_def sample_prefs_def sample_api_def)

section \<open>The local credential id\<close>

text \<open>\<open>password\<close> never writes the key \<open>local_credential_id\<close>, whatever its outcome.\<close>

lemma password_keeps_local_id:
  "pref_local_credential_id (prefs (snd (password api pw r))) = pref_local_credential_id (prefs r)"
  by (simp add: password_def effects Let_def split: option.splits sum.splits throwable.splits list.splits)

text \<open>
  Claim C10. \<open>signOut\<close> and the reset after a rejected password leave the stored local
  credential id as it was. A later \<open>signinRequest\<close> (after the username has been
  submitted again) asks the API with that id: when the API answers the stored id with
  options and a challenge, the request keeps this challenge and posts the pending intent.
\<close>

theorem local_credential_id_survives:
  "pref_local_credential_id (prefs (snd (signOut r))) = pref_local_credential_id (prefs r) \<and>
   (\<forall>u message. pref_username (prefs r) = Some u \<and>
        api_password api u pw = Inl (ApiException message) \<longrightarrow>
      pref_local_credential_id (prefs (snd (password api pw r)))
        = pref_local_credential_id (prefs r)) \<and>
   (\<forall>r' client u opts challenge pending.
      (r' = snd (signOut r) \<or> r' = snd (password api pw r)) \<and>
      fido2ApiClient r = Some client \<and>
      api_username api2 name = Inr u \<and>
      api_signinRequest api3 u (pref_local_credential_id (prefs r)) = Inr (opts, challenge) \<and>
      getSignIntent client opts = Inr pending \<longrightarrow>
      fst (signinRequest api3 (snd (username api2 name r'))) = None \<and>
      lastKnownChallenge (snd (signinRequest api3 (snd (username api2 name r')))) = Some challenge \<and>
      new_events (snd (username api2 name r')) (snd (signinRequest api3 (snd (username api2 name r'))))
        = [Posted True, ResultPosted pending, Posted False])"
proof (intro conjI allI impI)
  show "pref_local_credential_id (prefs (snd (signOut r))) = pref_local_credential_id (prefs r)"
    by (simp add: signOut_def effects)
next
  fix u message
  show "pref_local_credential_id (prefs (snd (password api pw r)))
        = pref_local_credential_id (prefs r)"
    by (rule password_keeps_local_id)
next
  fix r' client u opts challenge pending
  assume h: "(r' = snd (signOut r) \<or> r' = snd (password api pw r)) \<and>
      fido2ApiClient r = Some client \<and>
      api_username api2 name = Inr u \<and>
      api_signinRequest api3 u (pref_local_credential_id (prefs r)) = Inr (opts, challenge) \<and>
      getSignIntent client opts = Inr pending"
  have client: "fido2ApiClient r' = Some client"
    using h by (auto simp: signOut_def password_def effects Let_def
        split: option.splits sum.splits throwable.splits list.splits)
  have lid: "pref_local_credential_id (prefs r') = pref_local_credential_id (prefs r)"
    using h by (auto simp: signOut_def effects password_keeps_local_id)
  let ?r2 = "snd (username api2 name r')"
  have r2: "fido2ApiClient ?r2 = Some client" "pref_username (prefs ?r2) = Some u"
    "pref_local_credential_id (prefs ?r2) = pref_local_credential_id (prefs r)"
    using h client lid by (simp_all add: username_def effects)
  show "fst (signinRequest api3 ?r2) = None"
    using h r2 by (simp add: signinRequest_def effects)
  show "lastKnownChallenge (snd (signinRequest api3 ?r2)) = Some challenge"
    using h r2 by (simp add: signinRequest_def effects)
  show "new_events ?r2 (snd (signinRequest api3 ?r2)) = [Posted True, ResultPosted pending, Posted False]"
    using h r2 by (simp add: signinRequest_def effects new_events_def)
qed

text \<open>The key registered before survives both resets and is the one the server is asked with.\<close>

theorem local_credential_id_survives_witness:
  "pref_local_credential_id (prefs (snd (signOut sample_repo))) = Some ''key-1'' \<and>
   pref_username (prefs sample_repo) = Some ''bob'' \<and>
   api_password sample_api ''bob'' ''wrongpw'' = Inl (ApiException (Some ''invalid credentials'')) \<and>
   pref_local_credential_id (prefs (snd (password sample_api ''wrongpw'' sample_repo)))
     = Some ''key-1'' \<and>
   lastKnownChallenge
     (snd (signinRequest sample_api
        (snd (username sample_api ''bob'' (snd (signOut sample_repo)))))) = Some ''challenge-2'' \<and>
   lastKnownChallenge
     (snd (signinRequest sample_api
        (snd (username sample_api ''bob'' (snd (password sample_api ''wrongpw'' sample_repo))))))
     = Some ''challenge-2''"
proof -
  have h: "pref_username (prefs sample_repo) = Some ''bob''"
    "api_password sample_api ''bob'' ''wrongpw'' = Inl (ApiException (Some ''invalid credentials''))"
    "fido2ApiClient sample_repo = Some sample_client"
    "api_username sample_api ''bob'' = Inr ''bob''"
    "pref_local_credential_id (prefs sample_repo) = Some ''key-1''"
    "api_signinRequest sample_api ''bob'' (pref_local_credential_id (prefs sample_repo))
       = Inr (''sign-options'', ''challenge-2'')"
    "getSignIntent sample_client ''sign-options'' = Inr ''sign-intent''"
    by (simp_all add: sample_repo_def sample_prefs_def sample_api_def sample_client_def)
  note t = local_credential_id_survives
    [of sample_repo sample_api "''wrongpw''" sample_api "''bob''" sample_api]
  have "pref_local_credential_id (prefs (snd (signOut sample_repo))) = Some ''key-1''"
    using t h(5) by simp
  moreover have "pref_local_credential_id (prefs (snd (password sample_api ''wrongpw'' sample_repo)))
     = Some ''key-1''"
    using t h(1,2,5) by simp
  moreover have "lastKnownChallenge
     (snd (signinRequest sample_api
        (snd (username sample_api ''bob'' (snd (signOut sample_repo)))))) = Some ''challenge-2''"
    using t h(3,4,6,7) by blast
  moreover have "lastKnownChallenge
     (snd (signinRequest sample_api
        (snd (username sample_api ''bob'' (snd (password sample_api ''wrongpw'' sample_repo))))))
     = Some ''challenge-2''"
    using t h(3,4,6,7) by blast
  ultimately show ?thesis using h(1,2) by blast
qed

section \<open>The invariant of the store\<close>

lemma edits_ok_append: "edits_ok (xs @ ys) \<longleftrightarrow> edits_ok xs \<and> edits_ok ys"
  by (auto simp: edits_ok_def)

lemma edits_ok_simps:
  "edits_ok []"
  "edits_ok (Edited c p # es) \<longleftrightarrow> token_needs_username p \<and> edits_ok es"
  "edits_ok (Posted b # es) \<longleftrightarrow> edits_ok es"
  "edits_ok (Logged m e # es) \<longleftrightarrow> edits_ok es"
  "edits_ok (Notified l s # es) \<longleftrightarrow> edits_ok es"
  "edits_ok (ResultPosted i # es) \<longleftrightarrow> edits_ok es"
  by (auto simp: edits_ok_def)

lemma edits_ok_Notified: "edits_ok (map (\<lambda>l. Notified l s) ls)"
  by (auto simp: edits_ok_def)


lemmas inv_simps = store_inv_def edits_ok_append edits_ok_simps edits_ok_Notified
  token_needs_username_def effects Let_def

lemma username_inv: "store_inv r \<Longrightarrow> store_inv (snd (username api name r))"
  by (auto simp: username_def inv_simps split: sum.splits)

lemma password_inv: "store_inv r \<Longrightarrow> store_inv (snd (password api pw r))"
  by (auto simp: password_def inv_simps
      split: option.splits sum.splits throwable.splits list.splits)

lemma clearToken_inv: "store_inv r \<Longrightarrow> store_inv (snd (clearToken r))"
  by (auto simp: clearToken_def inv_simps split: option.splits)

lemma signOut_inv: "store_inv r \<Longrightarrow> store_inv (snd (signOut r))"
  by (auto simp: signOut_def inv_simps)

lemma registerRequest_inv: "store_inv r \<Longrightarrow> store_inv (snd (registerRequest api r))"
  by (auto simp: registerRequest_def registerRequest_caught_def inv_simps
      split: option.splits sum.splits prod.splits)

lemma registerResponse_inv: "store_inv r \<Longrightarrow> store_inv (snd (registerResponse api d r))"
  by (auto simp: registerResponse_def inv_simps
      split: option.splits sum.splits throwable.splits)

lemma signinRequest_inv: "store_inv r \<Longrightarrow> store_inv (snd (signinRequest api r))"
  by (auto simp: signinRequest_def inv_simps split: option.splits sum.splits prod.splits)

lemma signinResponse_inv: "store_inv r \<Longrightarrow> store_inv (snd (signinResponse api d r))"
  by (auto simp: signinResponse_def inv_simps
      split: option.splits sum.splits throwable.splits prod.splits)

lemma exec_inv: "store_inv r \<Longrightarrow> store_inv (snd (exec x r))"
  by (cases x)
    (simp_all add: username_inv password_inv clearToken_inv signOut_inv registerRequest_inv
      registerResponse_inv signinRequest_inv signinResponse_inv,
     simp_all add: store_inv_def setFido2APiClient_def onActive_def onInactive_def)

lemma run_inv: "store_inv r \<Longrightarrow> store_inv (run xs r)"
  by (induction xs arbitrary: r) (simp_all add: exec_inv)

lemma initial_inv: "store_inv initial"
  by (simp add: store_inv_def initial_def emptyPrefs_def token_needs_username_def edits_ok_simps)

text \<open>
  Claim C5, as the code has it. When the tasks run one after another, then in every state
  reached from the empty store by any sequence of tasks (\<open>username\<close>, \<open>password\<close>,
  \<open>clearToken\<close>, \<open>signOut\<close>, the four request and response operations, with any answers of
  the API and of the FIDO2 client), a stored token comes with a stored username; the same
  holds of the store after every single edit.
\<close>

theorem token_implies_username:
  "token_needs_username (prefs (run xs initial)) \<and>
   (\<forall>c p. Edited c p \<in> set (trace (run xs initial)) \<longrightarrow> token_needs_username p)"
  using run_inv [OF initial_inv, of xs] by (simp add: store_inv_def edits_ok_def)

text \<open>After username and password both keys are present, also between the two edits.\<close>

theorem token_implies_username_witness:
  "pref_token (prefs (run [Username sample_api ''bob'', Password sample_api ''secret''] initial))
     = Some ''token-1'' \<and>
   pref_username (prefs (run [Username sample_api ''bob'', Password sample_api ''secret''] initial))
     \<noteq> None \<and>
   Edited True \<lparr>pref_username = Some ''bob'', pref_token = Some ''token-1'',
       pref_credentials = None, pref_local_credential_id = None\<rparr>
     \<in> set (trace (run [Username sample_api ''bob'', Password sample_api ''secret''] initial)) \<and>
   token_needs_username \<lparr>pref_username = Some ''bob'', pref_token = Some ''token-1'',
       pref_credentials = None, pref_local_credential_id = None\<rparr>"
proof -
  let ?xs = "[Username sample_api ''bob'', Password sample_api ''secret'']"
  let ?p = "\<lparr>pref_username = Some ''bob'', pref_token = Some ''token-1'',
       pref_credentials = None, pref_local_credential_id = None\<rparr>"
  have tok: "pref_token (prefs (run ?xs initial)) = Some ''token-1''"
    by (simp add: username_def password_def effects initial_def emptyPrefs_def sample_api_def)
  have ed: "Edited True ?p \<in> set (trace (run ?xs initial))"
    by (simp add: username_def password_def effects initial_def emptyPrefs_def sample_api_def)
  have "pref_username (prefs (run ?xs initial)) \<noteq> None"
    using token_implies_username [of ?xs] tok by (simp add: token_needs_username_def)
  moreover have "token_needs_username ?p"
    using token_implies_username [of ?xs] ed by blast
  ultimately show ?thesis using tok ed by blast
qed

text \<open>The two parts of \<open>signinResponse\<close>, one after the other, are the whole task.\<close>

lemma signinResponse_in_two_parts:
  "signinResponse api d r =
     (case signinResponse_read d r of
        (Inl e, r') \<Rightarrow> (Some e, r')
      | (Inr locals, r') \<Rightarrow> signinResponse_commit api locals r')"
  by (simp add: signinResponse_def signinResponse_read_def signinResponse_commit_def Let_def
      split: option.splits)

text \<open>What the tasks of the sample user have left in the store when the response arrives.\<close>

lemma awaiting_response_state:
  "pref_username (prefs awaiting_response) = Some ''Bob'' \<and>
   pref_token (prefs awaiting_response) = None \<and>
   lastKnownChallenge awaiting_response = Some ''challenge-2''"
  by (simp add: awaiting_response_def initial_def emptyPrefs_def sample_api_def
      sample_client_def setFido2APiClient_def username_def password_def registerRequest_def
      registerResponse_def clearToken_def signinRequest_def effects Let_def)

text \<open>
  With tasks on several threads the invariant fails. The response of the key arrives and
  \<open>signinResponse\<close> has read the username; while it waits for the API, \<open>signOut\<close> runs on
  another thread; then the answer comes and the token is committed to a store that has
  no username.
\<close>

theorem token_without_username_counterexample:
  "fst (signinResponse_read (Some \<lparr>keyHandleBase64 = ''key-1''\<rparr>) awaiting_response) =
     Inr (''Bob'', ''challenge-2'', \<lparr>keyHandleBase64 = ''key-1''\<rparr>) \<and>
   pref_token (prefs (snd (signinResponse_commit sample_api
       (''Bob'', ''challenge-2'', \<lparr>keyHandleBase64 = ''key-1''\<rparr>)
       (snd (signOut (snd (signinResponse_read (Some \<lparr>keyHandleBase64 = ''key-1''\<rparr>)
          awaiting_response))))))) = Some ''token-2'' \<and>
   pref_username (prefs (snd (signinResponse_commit sample_api
       (''Bob'', ''challenge-2'', \<lparr>keyHandleBase64 = ''key-1''\<rparr>)
       (snd (signOut (snd (signinResponse_read (Some \<lparr>keyHandleBase64 = ''key-1''\<rparr>)
          awaiting_response))))))) = None \<and>
   \<not> token_needs_username (prefs (snd (signinResponse_commit sample_api
       (''Bob'', ''challenge-2'', \<lparr>keyHandleBase64 = ''key-1''\<rparr>)
       (snd (signOut (snd (signinResponse_read (Some \<lparr>keyHandleBase64 = ''key-1''\<rparr>)
          awaiting_response)))))))"
proof -
  let ?d = "Some \<lparr>keyHandleBase64 = ''key-1''\<rparr>"
  let ?locals = "(''Bob'', ''challenge-2'', \<lparr>keyHandleBase64 = ''key-1''\<rparr>)"
  have read: "fst (signinResponse_read ?d awaiting_response) = Inr ?locals"
    using awaiting_response_state by (simp add: signinResponse_read_def effects Let_def)
  have out: "pref_username (prefs (snd (signOut r))) = None"
    "pref_token (prefs (snd (signOut r))) = None" for r
    by (simp_all add: signOut_def effects)
  have commit: "pref_token (prefs (snd (signinResponse_commit sample_api ?locals r)))
        = Some ''token-2''"
    "pref_username (prefs (snd (signinResponse_commit sample_api ?locals r)))
        = pref_username (prefs r)" for r
    by (simp_all add: signinResponse_commit_def sample_api_def effects Let_def)
  show ?thesis
    by (simp add: read out commit token_needs_username_def)
qed

section \<open>Malformed records\<close>

lemma parseRecord_short:
  "length (split_str CHR '';'' s) < 3 \<Longrightarrow> parseRecord s = Inl IndexOutOfBoundsException"
  by (auto simp: parseRecord_def split: list.splits)

lemma parseRecord_long:
  "\<not> length (split_str CHR '';'' s) < 3 \<Longrightarrow>
   parseRecord s =
     Inr (split_str CHR '';'' s ! 0,
          Credential (split_str CHR '';'' s ! 1) (split_str CHR '';'' s ! 2))"
  by (auto simp: parseRecord_def split: list.splits)

lemma mapRaising_Inl_elem:
  "mapRaising f xs = Inl e \<Longrightarrow> \<exists>x\<in>set xs. f x = Inl e"
  by (induction xs arbitrary: e) (auto split: sum.splits)

lemma mapRaising_Inr_all:
  "mapRaising f xs = Inr ys \<Longrightarrow> ys = map (\<lambda>x. projr (f x)) xs \<and> (\<forall>x\<in>set xs. \<exists>y. f x = Inr y)"
  by (induction xs arbitrary: ys) (auto split: sum.splits)

lemma mapRaising_elem_Inl:
  "x \<in> set xs \<Longrightarrow> f x = Inl e \<Longrightarrow> \<exists>e'. mapRaising f xs = Inl e'"
  by (induction xs) (auto split: sum.splits)

lemma parseCredentials_Inl:
  "parseCredentials records = Inl e \<longleftrightarrow> mapRaising parseRecord records = Inl e"
  by (simp add: parseCredentials_def split: sum.splits)

lemma parseRecord_Inl_iff:
  "parseRecord r = Inl e \<longleftrightarrow> e = IndexOutOfBoundsException \<and> length (split_str CHR '';'' r) < 3"
proof (cases "length (split_str CHR '';'' r) < 3")
  case True
  then show ?thesis by (auto simp: parseRecord_short)
next
  case False
  then show ?thesis by (simp add: parseRecord_long)
qed

lemma parseCredentials_Inl_only:
  assumes "parseCredentials records = Inl e"
  shows "e = IndexOutOfBoundsException \<and> (\<exists>r\<in>set records. length (split_str CHR '';'' r) < 3)"
proof -
  have "mapRaising parseRecord records = Inl e"
    using assms by (simp add: parseCredentials_Inl)
  then have "\<exists>r\<in>set records. parseRecord r = Inl e"
    by (rule mapRaising_Inl_elem)
  then obtain r where r: "r \<in> set records" and "parseRecord r = Inl e" ..
  then have "e = IndexOutOfBoundsException" and "length (split_str CHR '';'' r) < 3"
    by (simp_all add: parseRecord_Inl_iff)
  with r show ?thesis by (intro conjI bexI [of _ r])
qed

lemma parseCredentials_short_raises:
  assumes "r \<in> set records" "length (split_str CHR '';'' r) < 3"
  shows "parseCredentials records = Inl IndexOutOfBoundsException"
proof -
  have "parseRecord r = Inl IndexOutOfBoundsException"
    using assms(2) by (rule parseRecord_short)
  then have "\<exists>e'. mapRaising parseRecord records = Inl e'"
    by (rule mapRaising_elem_Inl [OF assms(1)])
  then obtain e' where "mapRaising parseRecord records = Inl e'" ..
  then have e': "parseCredentials records = Inl e'" by (simp add: parseCredentials_Inl)
  then have "e' = IndexOutOfBoundsException"
    by (rule parseCredentials_Inl_only [THEN conjunct1])
  with e' show ?thesis by simp
qed

lemma parseCredentials_Inr_pairs:
  assumes "parseCredentials records = Inr cs"
  shows "\<exists>ps. mapRaising parseRecord records = Inr ps \<and> cs = map snd (sort_key fst ps)"
  using assms by (simp add: parseCredentials_def split: sum.splits)

lemma parseRecord_long_snd:
  assumes "\<not> length (split_str CHR '';'' r) < 3"
  shows "snd (projr (parseRecord r)) =
      Credential (split_str CHR '';'' r ! 1) (split_str CHR '';'' r ! 2)"
  using parseRecord_long [OF assms] by simp

lemma all_parsed_long:
  assumes ok: "\<forall>r\<in>set records. \<exists>y. parseRecord r = Inr y" and r: "r \<in> set records"
  shows "\<not> length (split_str CHR '';'' r) < 3"
proof -
  from ok r have "\<exists>y. parseRecord r = Inr y" by (rule bspec)
  then obtain y where y: "parseRecord r = Inr y" ..
  show ?thesis
  proof
    assume "length (split_str CHR '';'' r) < 3"
    then have "parseRecord r = Inl IndexOutOfBoundsException" by (rule parseRecord_short)
    with y show False by simp
  qed
qed

lemma parseCredentials_Inr_mset:
  assumes "parseCredentials records = Inr cs"
  shows "mset cs =
     mset (map (\<lambda>r. Credential (split_str CHR '';'' r ! 1) (split_str CHR '';'' r ! 2)) records)"
proof -
  obtain ps where ps: "mapRaising parseRecord records = Inr ps"
    and cs_eq: "cs = map snd (sort_key fst ps)"
    using parseCredentials_Inr_pairs [OF assms] by (elim exE conjE)
  have all: "ps = map (\<lambda>x. projr (parseRecord x)) records"
    using mapRaising_Inr_all [OF ps, THEN conjunct1] .
  have ok: "\<forall>r\<in>set records. \<exists>y. parseRecord r = Inr y"
    using mapRaising_Inr_all [OF ps, THEN conjunct2] .
  have "map (\<lambda>x. snd (projr (parseRecord x))) records =
     map (\<lambda>r. Credential (split_str CHR '';'' r ! 1) (split_str CHR '';'' r ! 2)) records"
    by (rule map_cong [OF refl]) (simp add: all_parsed_long [OF ok] parseRecord_long_snd)
  then have "map snd ps =
     map (\<lambda>r. Credential (split_str CHR '';'' r ! 1) (split_str CHR '';'' r ! 2)) records"
    by (simp only: all map_map comp_def)
  moreover have "mset (map snd (sort_key fst ps)) = mset (map snd ps)"
    by simp
  ultimately show ?thesis by (simp only: cs_eq)
qed

text \<open>
  Claim C8, as the code has it. Decoding raises, and then returns no list at all, exactly
  when some record has fewer than three fields when split on the delimiter; the exception
  is the \<open>IndexOutOfBoundsException\<close> of the destructuring. When decoding returns, the
  list holds one credential for every record, made of its second and third field: no
  record is dropped.
\<close>

theorem parseCredentials_raises_on_short_record:
  "(parseCredentials records = Inl IndexOutOfBoundsException \<longleftrightarrow>
      (\<exists>r\<in>set records. length (split_str CHR '';'' r) < 3)) \<and>
   (\<forall>e. parseCredentials records = Inl e \<longrightarrow> e = IndexOutOfBoundsException) \<and>
   (\<forall>cs. parseCredentials records = Inr cs \<longrightarrow>
      mset cs = mset (map (\<lambda>r. Credential (split_str CHR '';'' r ! 1) (split_str CHR '';'' r ! 2))
                        records))"
proof (intro conjI allI impI iffI)
  assume "parseCredentials records = Inl IndexOutOfBoundsException"
  then show "\<exists>r\<in>set records. length (split_str CHR '';'' r) < 3"
    by (rule parseCredentials_Inl_only [THEN conjunct2])
next
  assume "\<exists>r\<in>set records. length (split_str CHR '';'' r) < 3"
  then obtain r where "r \<in> set records" "length (split_str CHR '';'' r) < 3" ..
  then show "parseCredentials records = Inl IndexOutOfBoundsException"
    by (rule parseCredentials_short_raises)
next
  fix e assume "parseCredentials records = Inl e"
  then show "e = IndexOutOfBoundsException"
    by (rule parseCredentials_Inl_only [THEN conjunct1])
next
  fix cs assume "parseCredentials records = Inr cs"
  then show "mset cs =
     mset (map (\<lambda>r. Credential (split_str CHR '';'' r ! 1) (split_str CHR '';'' r ! 2)) records)"
    by (rule parseCredentials_Inr_mset)
qed

text \<open>A record of two fields makes the whole read fail; two records of three fields are read.\<close>

theorem parseCredentials_raises_on_short_record_witness:
  "(\<exists>r\<in>set [''0;a;b'', ''1;c'']. length (split_str CHR '';'' r) < 3) \<and>
   parseCredentials [''0;a;b'', ''1;c''] = Inl IndexOutOfBoundsException \<and>
   parseCredentials [''1;c;d'', ''0;a;b''] = Inr [Credential ''a'' ''b'', Credential ''c'' ''d''] \<and>
   mset [Credential ''a'' ''b'', Credential ''c'' ''d'']
     = mset (map (\<lambda>r. Credential (split_str CHR '';'' r ! 1) (split_str CHR '';'' r ! 2))
              [''1;c;d'', ''0;a;b''])"
proof -
  note t1 = parseCredentials_raises_on_short_record [of "[''0;a;b'', ''1;c'']"]
  note t2 = parseCredentials_raises_on_short_record [of "[''1;c;d'', ''0;a;b'']"]
  have short: "\<exists>r\<in>set [''0;a;b'', ''1;c'']. length (split_str CHR '';'' r) < 3"
    by simp
  have ok: "parseCredentials [''1;c;d'', ''0;a;b''] = Inr [Credential ''a'' ''b'', Credential ''c'' ''d'']"
    by code_simp
  have raised: "parseCredentials [''0;a;b'', ''1;c''] = Inl IndexOutOfBoundsException"
    using t1 [THEN conjunct1, THEN iffD2, OF short] .
  have same: "mset [Credential ''a'' ''b'', Credential ''c'' ''d'']
     = mset (map (\<lambda>r. Credential (split_str CHR '';'' r ! 1) (split_str CHR '';'' r ! 2))
              [''1;c;d'', ''0;a;b''])"
    using t2 [THEN conjunct2, THEN conjunct2, THEN spec, THEN mp, OF ok] .
  from short raised ok same show ?thesis by (intro conjI)
qed

text \<open>
  A record of four fields is no error: it is decoded, and its fourth field is ignored.
\<close>

theorem parseCredentials_malformed_counterexample:
  "length (split_str CHR '';'' ''0;c;d;e'') = 4 \<and>
   parseCredentials [''1;a;b'', ''0;c;d;e''] = Inr [Credential ''c'' ''d'', Credential ''a'' ''b'']"
  by code_simp

section \<open>Notification of the listeners\<close>

lemmas deliver_simps = effects new_events_def delivered_to_append delivered_to_broadcast Let_def





lemma registerRequest_delivers: "notifies r (snd (registerRequest api r)) []"
  by (simp add: notifies_def registerRequest_def registerRequest_caught_def deliver_simps
      split: option.splits sum.splits prod.splits)

lemma registerResponse_delivers: "notifies r (snd (registerResponse api d r)) []"
  by (simp add: notifies_def registerResponse_def deliver_simps
      split: option.splits sum.splits throwable.splits)

lemma signinRequest_delivers: "notifies r (snd (signinRequest api r)) []"
  by (simp add: notifies_def signinRequest_def deliver_simps
      split: option.splits sum.splits prod.splits)






section \<open>Failures of registration and credential sign-in\<close>

lemma registerRequest_frame:
  "prefs (snd (registerRequest api r)) = prefs r \<and> fst (registerRequest api r) = None"
  by (simp add: registerRequest_def registerRequest_caught_def effects Let_def
      split: option.splits sum.splits prod.splits)

lemma signinRequest_frame: "prefs (snd (signinRequest api r)) = prefs r"
  by (simp add: signinRequest_def effects Let_def split: option.splits sum.splits prod.splits)

lemma registerResponse_frame:
  "fst (registerResponse api d r) \<noteq> None \<Longrightarrow> prefs (snd (registerResponse api d r)) = prefs r"
  by (simp add: registerResponse_def effects Let_def
      split: option.splits sum.splits throwable.splits)

lemma signinResponse_frame:
  "fst (signinResponse api d r) \<noteq> None \<Longrightarrow>
   prefs (snd (signinResponse api d r)) = prefs r \<and> notifies r (snd (signinResponse api d r)) []"
  by (simp add: signinResponse_def notifies_def deliver_simps
      split: option.splits sum.splits throwable.splits prod.splits)

text \<open>
  Claim C6, as the code has it. A failure is logged, and no exception leaves the task,
  in \<open>registerRequest\<close> when the API exchange or the request for the ceremony raises any
  exception, and in \<open>registerResponse\<close> and \<open>signinResponse\<close> when the API exchange raises
  an \<open>ApiException\<close>. In these cases, and whenever one of the four operations ends with
  an exception, the store (and so the state derived from it) is left as it was and no
  listener is called; \<open>registerRequest\<close>, \<open>signinRequest\<close> never write the store, and the
  two requests and \<open>registerResponse\<close> never call a listener.
\<close>

theorem ceremony_failures_leave_store:
  "(\<forall>client token u e.
      fido2ApiClient r = Some client \<and> pref_token (prefs r) = Some token \<and>
      pref_username (prefs r) = Some u \<and>
      (api_registerRequest api token u = Inl e \<or>
       (\<exists>opts challenge. api_registerRequest api token u = Inr (opts, challenge) \<and>
          getRegisterIntent client opts = Inl e)) \<longrightarrow>
      fst (registerRequest api r) = None \<and>
      prefs (snd (registerRequest api r)) = prefs r \<and>
      new_events r (snd (registerRequest api r)) =
        [Posted True, Logged LOG_REGISTER_REQUEST e, Posted False]) \<and>
   (\<forall>token challenge response message.
      pref_token (prefs r) = Some token \<and> lastKnownChallenge r = Some challenge \<and>
      d = Some response \<and>
      api_registerResponse api token challenge response = Inl (ApiException message) \<longrightarrow>
      fst (registerResponse api d r) = None \<and>
      prefs (snd (registerResponse api d r)) = prefs r \<and>
      new_events r (snd (registerResponse api d r)) =
        [Posted True, Logged LOG_REGISTER_RESPONSE (ApiException message), Posted False]) \<and>
   (\<forall>u challenge response message.
      pref_username (prefs r) = Some u \<and> lastKnownChallenge r = Some challenge \<and>
      d = Some response \<and>
      api_signinResponse api u challenge response = Inl (ApiException message) \<longrightarrow>
      fst (signinResponse api d r) = None \<and>
      prefs (snd (signinResponse api d r)) = prefs r \<and>
      new_events r (snd (signinResponse api d r)) =
        [Posted True, Logged LOG_REGISTER_RESPONSE (ApiException message), Posted False]) \<and>
   prefs (snd (registerRequest api r)) = prefs r \<and>
   notifies r (snd (registerRequest api r)) [] \<and>
   prefs (snd (signinRequest api r)) = prefs r \<and>
   notifies r (snd (signinRequest api r)) [] \<and>
   notifies r (snd (registerResponse api d r)) [] \<and>
   (fst (registerResponse api d r) \<noteq> None \<longrightarrow> prefs (snd (registerResponse api d r)) = prefs r) \<and>
   (fst (signinResponse api d r) \<noteq> None \<longrightarrow>
      prefs (snd (signinResponse api d r)) = prefs r \<and>
      notifies r (snd (signinResponse api d r)) [])"
proof (intro conjI allI impI)
  fix client token u e
  assume h: "fido2ApiClient r = Some client \<and> pref_token (prefs r) = Some token \<and>
      pref_username (prefs r) = Some u \<and>
      (api_registerRequest api token u = Inl e \<or>
       (\<exists>opts challenge. api_registerRequest api token u = Inr (opts, challenge) \<and>
          getRegisterIntent client opts = Inl e))"
  then show "new_events r (snd (registerRequest api r)) =
        [Posted True, Logged LOG_REGISTER_REQUEST e, Posted False]"
    by (auto simp: registerRequest_def registerRequest_caught_def effects new_events_def)
  show "fst (registerRequest api r) = None" "prefs (snd (registerRequest api r)) = prefs r"
    by (simp_all add: registerRequest_frame)
next
  fix token challenge response message
  assume h: "pref_token (prefs r) = Some token \<and> lastKnownChallenge r = Some challenge \<and>
      d = Some response \<and>
      api_registerResponse api token challenge response = Inl (ApiException message)"
  then show "fst (registerResponse api d r) = None"
    "prefs (snd (registerResponse api d r)) = prefs r"
    "new_events r (snd (registerResponse api d r)) =
        [Posted True, Logged LOG_REGISTER_RESPONSE (ApiException message), Posted False]"
    by (simp_all add: registerResponse_def effects new_events_def)
next
  fix u challenge response message
  assume h: "pref_username (prefs r) = Some u \<and> lastKnownChallenge r = Some challenge \<and>
      d = Some response \<and>
      api_signinResponse api u challenge response = Inl (ApiException message)"
  then show "fst (signinResponse api d r) = None"
    "prefs (snd (signinResponse api d r)) = prefs r"
    "new_events r (snd (signinResponse api d r)) =
        [Posted True, Logged LOG_REGISTER_RESPONSE (ApiException message), Posted False]"
    by (simp_all add: signinResponse_def effects new_events_def)
next
  show "prefs (snd (registerRequest api r)) = prefs r"
    by (simp add: registerRequest_frame)
  show "notifies r (snd (registerRequest api r)) []"
    by (rule registerRequest_delivers)
  show "prefs (snd (signinRequest api r)) = prefs r"
    by (rule signinRequest_frame)
  show "notifies r (snd (signinRequest api r)) []"
    by (rule signinRequest_delivers)
  show "notifies r (snd (registerResponse api d r)) []"
    by (rule registerResponse_delivers)
next
  assume "fst (registerResponse api d r) \<noteq> None"
  then show "prefs (snd (registerResponse api d r)) = prefs r"
    by (rule registerResponse_frame)
next
  assume h: "fst (signinResponse api d r) \<noteq> None"
  show "prefs (snd (signinResponse api d r)) = prefs r"
    using signinResponse_frame [OF h] by simp
  show "notifies r (snd (signinResponse api d r)) []"
    using signinResponse_frame [OF h] by simp
qed

text \<open>A server that rejects the three exchanges, and response intents without payload.\<close>

theorem ceremony_failures_leave_store_witness:
  "new_events sample_repo (snd (registerRequest rejecting_api sample_repo)) =
     [Posted True, Logged LOG_REGISTER_REQUEST (ApiException None), Posted False] \<and>
   new_events sample_repo
       (snd (registerResponse rejecting_api (Some \<lparr>keyHandleBase64 = ''key-2''\<rparr>) sample_repo)) =
     [Posted True, Logged LOG_REGISTER_RESPONSE (ApiException None), Posted False] \<and>
   new_events sample_repo
       (snd (signinResponse rejecting_api (Some \<lparr>keyHandleBase64 = ''key-2''\<rparr>) sample_repo)) =
     [Posted True, Logged LOG_REGISTER_RESPONSE (ApiException None), Posted False] \<and>
   fst (registerResponse sample_api None sample_repo) \<noteq> None \<and>
   prefs (snd (registerResponse sample_api None sample_repo)) = sample_prefs \<and>
   fst (signinResponse sample_api None sample_repo) \<noteq> None \<and>
   prefs (snd (signinResponse sample_api None sample_repo)) = sample_prefs"
proof -
  let ?d = "Some \<lparr>keyHandleBase64 = ''key-2''\<rparr>"
  have st: "fido2ApiClient sample_repo = Some sample_client"
    "pref_token (prefs sample_repo) = Some ''token-0''"
    "pref_username (prefs sample_repo) = Some ''bob''"
    "lastKnownChallenge sample_repo = Some ''challenge-0''"
    "prefs sample_repo = sample_prefs"
    by (simp_all add: sample_repo_def sample_prefs_def)
  have api: "api_registerRequest rejecting_api ''token-0'' ''bob'' = Inl (ApiException None)"
    "api_registerResponse rejecting_api ''token-0'' ''challenge-0'' \<lparr>keyHandleBase64 = ''key-2''\<rparr>
       = Inl (ApiException None)"
    "api_signinResponse rejecting_api ''bob'' ''challenge-0'' \<lparr>keyHandleBase64 = ''key-2''\<rparr>
       = Inl (ApiException None)"
    by (simp_all add: rejecting_api_def)
  have raised: "fst (registerResponse sample_api None sample_repo) \<noteq> None"
    "fst (signinResponse sample_api None sample_repo) \<noteq> None"
    by (simp_all add: registerResponse_def signinResponse_def effects sample_repo_def
        sample_prefs_def)
  note t1 = ceremony_failures_leave_store [of sample_repo rejecting_api ?d]
  note t2 = ceremony_failures_leave_store [of sample_repo sample_api None]
  have "new_events sample_repo (snd (registerRequest rejecting_api sample_repo)) =
     [Posted True, Logged LOG_REGISTER_REQUEST (ApiException None), Posted False]"
    using t1 st(1,2,3) api(1) by blast
  moreover have "new_events sample_repo (snd (registerResponse rejecting_api ?d sample_repo)) =
     [Posted True, Logged LOG_REGISTER_RESPONSE (ApiException None), Posted False]"
    using t1 st(2,4) api(2) by blast
  moreover have "new_events sample_repo (snd (signinResponse rejecting_api ?d sample_repo)) =
     [Posted True, Logged LOG_REGISTER_RESPONSE (ApiException None), Posted False]"
    using t1 st(3,4) api(3) by blast
  moreover have "prefs (snd (registerResponse sample_api None sample_repo)) = sample_prefs"
    using t2 raised(1) st(5) by metis
  moreover have "prefs (snd (signinResponse sample_api None sample_repo)) = sample_prefs"
    using t2 raised(2) st(5) by metis
  ultimately show ?thesis using raised by (intro conjI)
qed

text \<open>
  Not every failure is logged. A response intent without payload makes \<open>registerResponse\<close>
  end with a \<open>NullPointerException\<close>, and an exception of the API that is no
  \<open>ApiException\<close> leaves the task as it is: the trace shows the two posted flags and no
  log entry.
\<close>

theorem ceremony_failures_counterexample:
  "fst (registerResponse sample_api None sample_repo) = Some NullPointerException \<and>
   new_events sample_repo (snd (registerResponse sample_api None sample_repo))
     = [Posted True, Posted False] \<and>
   fst (registerResponse unreachable_api (Some \<lparr>keyHandleBase64 = ''key-2''\<rparr>) sample_repo)
     = Some OtherException \<and>
   new_events sample_repo
       (snd (registerResponse unreachable_api (Some \<lparr>keyHandleBase64 = ''key-2''\<rparr>) sample_repo))
     = [Posted True, Posted False]"
  by (simp add: registerResponse_def effects new_events_def sample_repo_def
      sample_prefs_def unreachable_api_def)

text \<open>
  \<open>signinRequest\<close> has no \<open>catch\<close>: an \<open>ApiException\<close> of its exchange leaves the task, and
  nothing is logged.
\<close>

lemma signinRequest_failure_not_logged:
  "fst (signinRequest rejecting_api sample_repo) = Some (ApiException None) \<and>
   new_events sample_repo (snd (signinRequest rejecting_api sample_repo))
     = [Posted True, Posted False]"
  by (simp add: signinRequest_def effects new_events_def sample_repo_def
      sample_prefs_def rejecting_api_def)

end
